theory Spec2Isabelle
  imports Main
begin

section \<open>The \<open>micromamba shell\<close> command (micromamba/src/shell.cpp)\<close>

subsection \<open>Data\<close>

text \<open>
  Exceptions are values. \<open>Runtime_error\<close> is \<open>std::runtime_error\<close> with its message,
  \<open>Validation_error\<close> is the failure of an option check, carrying the rejected value.
\<close>

datatype error = Runtime_error string | Validation_error string

text \<open>
  How a callback ends: it returns to the parser, it throws, or it calls \<open>exit\<close> with a
  status.
\<close>

datatype outcome = Returned | Threw error | Exited int

text \<open>
  The configurables this file inserts (\<open>shell_type\<close>, \<open>shell_prefix\<close>, \<open>shell_stack\<close>) and
  the three that \<open>set_default_config_options\<close> writes. The record holds the values that
  \<open>config.at(...).compute().value()\<close> yields; the first two default to the empty string,
  the third to false.
\<close>

record configuration =
  shell_type :: string
  shell_prefix :: string
  shell_stack :: bool
  show_banner :: bool
  use_target_prefix_fallback :: bool
  target_prefix_checks :: int

text \<open>\<open>ctx.prefix_params.root_prefix\<close>; \<open>'p\<close> is the type \<open>fs::u8path\<close>.\<close>

record 'p prefix_params_t =
  root_prefix :: 'p

record 'p context_t =
  prefix_params :: "'p prefix_params_t"

text \<open>
  The eight arguments of the call of \<open>mamba::run_in_environment\<close>, in the order of the
  call.
\<close>

record 'p run_args =
  run_prefix :: 'p
  run_command :: "string list"
  run_cwd :: string
  run_stream_options :: int
  run_clean_env :: bool
  run_detach :: bool
  run_env_vars :: "string list"
  run_specific_process_name :: string

text \<open>
  Everything a callback does to the outside is appended to a trace: the calls into
  libmamba (declared in mamba/api/shell.hpp), the configuration load and teardown, the
  log lines and the process spawn.
\<close>

datatype 'p event =
    Config_load
  | Operation_teardown
  | Log_debug string
  | Log_error string
  | Shell_init string string
  | Shell_deinit string string
  | Shell_reinit string
  | Shell_hook string
  | Shell_activate string string bool
  | Shell_reactivate string
  | Shell_deactivate string
  | Shell_enable_long_path_support
  | Run_in_environment "'p run_args"

record 'p state =
  config :: configuration
  ctx :: "'p context_t"
  trace :: "'p event list"

text \<open>
  What shell.cpp uses and does not define: the platform constants \<open>on_win\<close> and
  \<open>on_mac\<close>, \<open>env::get\<close>, the result of \<open>guess_shell()\<close>, the operator \<open>/\<close> of
  \<open>fs::u8path\<close>, the status that \<open>run_in_environment\<close> returns for its arguments, and
  the constants \<open>STREAM_OPTIONS::ALL_STREAMS\<close> and \<open>MAMBA_NO_PREFIX_CHECK\<close>. They are
  parameters of the model.
\<close>

record 'p externals =
  on_win :: bool
  on_mac :: bool
  env_get :: "string \<Rightarrow> string option"
  guess_shell :: string
  slash :: "'p \<Rightarrow> string \<Rightarrow> 'p"
  run_in_environment :: "'p run_args \<Rightarrow> int"
  ALL_STREAMS :: int
  MAMBA_NO_PREFIX_CHECK :: int

definition emit :: "'p event \<Rightarrow> 'p state \<Rightarrow> 'p state" where
  "emit e s = s\<lparr>trace := trace s @ [e]\<rparr>"

subsection \<open>\<open>consolidate_shell\<close>\<close>

definition value_or :: "'a option \<Rightarrow> 'a \<Rightarrow> 'a" where
  "value_or x d = (case x of None \<Rightarrow> d | Some v \<Rightarrow> v)"

definition provide_shell_message :: string where
  "provide_shell_message =
     ''Please provide a shell type.'' @ [CHR 0x0A] @
     ''Run with --help for more information.'' @ [CHR 0x0A]"

definition consolidate_shell ::
  "'p externals \<Rightarrow> string \<Rightarrow> 'p state \<Rightarrow> (error + string) \<times> 'p state" where
  "consolidate_shell ext shell_type_arg s =
     (if shell_type_arg \<noteq> [] then (Inr shell_type_arg, s)
      else
        let s1 = emit (Log_debug ''No shell type provided'') s;
            guessed_shell = guess_shell ext
        in if guessed_shell \<noteq> []
           then (Inr guessed_shell,
                 emit (Log_debug (''Guessed shell: '' @ [CHR 0x27] @ guessed_shell @ [CHR 0x27])) s1)
           else (Inl (Runtime_error ''Unknown shell type. Aborting.''),
                 emit (Log_error provide_shell_message) s1))"

subsection \<open>The lambdas \<open>get_prefix\<close> and \<open>get_shell\<close> of the launch callback\<close>

definition get_prefix :: "'p externals \<Rightarrow> 'p state \<Rightarrow> 'p" where
  "get_prefix ext s =
     (let prefix = shell_prefix (config s)
      in if prefix = [] \<or> prefix = ''base''
         then root_prefix (prefix_params (ctx s))
         else slash ext (slash ext (root_prefix (prefix_params (ctx s))) ''envs'') prefix)"

definition get_shell :: "'p externals \<Rightarrow> string" where
  "get_shell ext =
     (if on_win ext then value_or (env_get ext ''SHELL'') ''cmd.exe''
      else if on_mac ext then value_or (env_get ext ''SHELL'') ''zsh''
      else value_or (env_get ext ''SHELL'') ''bash'')"

subsection \<open>The callbacks of the sub-subcommands\<close>

definition set_default_config_options :: "'p externals \<Rightarrow> configuration \<Rightarrow> configuration" where
  "set_default_config_options ext cfg =
     cfg\<lparr>show_banner := False,
         use_target_prefix_fallback := False,
         target_prefix_checks := MAMBA_NO_PREFIX_CHECK ext\<rparr>"

text \<open>
  The first two statements of every callback: the defaults are written, then
  \<open>config.load()\<close> runs.
\<close>

definition load_with_defaults :: "'p externals \<Rightarrow> 'p state \<Rightarrow> 'p state" where
  "load_with_defaults ext s =
     emit Config_load (s\<lparr>config := set_default_config_options ext (config s)\<rparr>)"

definition set_shell_init_command :: "'p externals \<Rightarrow> 'p state \<Rightarrow> outcome \<times> 'p state" where
  "set_shell_init_command ext s =
     (let s1 = load_with_defaults ext s
      in case consolidate_shell ext (shell_type (config s1)) s1 of
           (Inl e, s2) \<Rightarrow> (Threw e, s2)
         | (Inr sh, s2) \<Rightarrow>
             (Returned,
              emit Operation_teardown (emit (Shell_init sh (shell_prefix (config s2))) s2)))"

definition set_shell_deinit_command :: "'p externals \<Rightarrow> 'p state \<Rightarrow> outcome \<times> 'p state" where
  "set_shell_deinit_command ext s =
     (let s1 = load_with_defaults ext s
      in case consolidate_shell ext (shell_type (config s1)) s1 of
           (Inl e, s2) \<Rightarrow> (Threw e, s2)
         | (Inr sh, s2) \<Rightarrow>
             (Returned,
              emit Operation_teardown (emit (Shell_deinit sh (shell_prefix (config s2))) s2)))"

definition set_shell_reinit_command :: "'p externals \<Rightarrow> 'p state \<Rightarrow> outcome \<times> 'p state" where
  "set_shell_reinit_command ext s =
     (let s1 = load_with_defaults ext s
      in (Returned, emit Operation_teardown (emit (Shell_reinit (shell_prefix (config s1))) s1)))"

definition set_shell_hook_command :: "'p externals \<Rightarrow> 'p state \<Rightarrow> outcome \<times> 'p state" where
  "set_shell_hook_command ext s =
     (let s1 = load_with_defaults ext s
      in case consolidate_shell ext (shell_type (config s1)) s1 of
           (Inl e, s2) \<Rightarrow> (Threw e, s2)
         | (Inr sh, s2) \<Rightarrow> (Returned, emit Operation_teardown (emit (Shell_hook sh) s2)))"

definition set_shell_activate_command :: "'p externals \<Rightarrow> 'p state \<Rightarrow> outcome \<times> 'p state" where
  "set_shell_activate_command ext s =
     (let s1 = load_with_defaults ext s
      in case consolidate_shell ext (shell_type (config s1)) s1 of
           (Inl e, s2) \<Rightarrow> (Threw e, s2)
         | (Inr sh, s2) \<Rightarrow>
             (Returned,
              emit Operation_teardown
                (emit (Shell_activate (shell_prefix (config s2)) sh (shell_stack (config s2))) s2)))"

definition set_shell_reactivate_command :: "'p externals \<Rightarrow> 'p state \<Rightarrow> outcome \<times> 'p state" where
  "set_shell_reactivate_command ext s =
     (let s1 = load_with_defaults ext s
      in case consolidate_shell ext (shell_type (config s1)) s1 of
           (Inl e, s2) \<Rightarrow> (Threw e, s2)
         | (Inr sh, s2) \<Rightarrow> (Returned, emit Operation_teardown (emit (Shell_reactivate sh) s2)))"

text \<open>The shell type goes to \<open>shell_deactivate\<close> as computed, not through \<open>consolidate_shell\<close>.\<close>

definition set_shell_deactivate_command :: "'p externals \<Rightarrow> 'p state \<Rightarrow> outcome \<times> 'p state" where
  "set_shell_deactivate_command ext s =
     (let s1 = load_with_defaults ext s
      in (Returned, emit Operation_teardown (emit (Shell_deactivate (shell_type (config s1))) s1)))"

definition set_shell_long_path_command :: "'p externals \<Rightarrow> 'p state \<Rightarrow> outcome \<times> 'p state" where
  "set_shell_long_path_command ext s =
     (let s1 = load_with_defaults ext s
      in (Returned, emit Operation_teardown (emit Shell_enable_long_path_support s1)))"

subsection \<open>The launch callback\<close>

text \<open>The sub-subcommands that \<open>set_shell_command\<close> adds, and its array of them.\<close>

datatype subsubcmd =
  Init | Deinit | Reinit | Hook | Activate | Reactivate | Deactivate | Enable_long_path_support

definition all_subsubcmds :: "subsubcmd list" where
  "all_subsubcmds =
     [Init, Deinit, Reinit, Hook, Activate, Reactivate, Deactivate, Enable_long_path_support]"

definition launch_args :: "'p externals \<Rightarrow> 'p state \<Rightarrow> 'p run_args" where
  "launch_args ext s =
     \<lparr>run_prefix = get_prefix ext s,
      run_command = [get_shell ext],
      run_cwd = ''.'',
      run_stream_options = ALL_STREAMS ext,
      run_clean_env = False,
      run_detach = False,
      run_env_vars = [],
      run_specific_process_name = []\<rparr>"

text \<open>
  \<open>parsed c\<close> is \<open>subsubcmd->parsed()\<close>. Nothing happens before the test of
  \<open>got_subsubcmd\<close>; without a sub-subcommand the callback ends in \<open>exit\<close>.
\<close>

definition set_shell_launch_command ::
  "'p externals \<Rightarrow> subsubcmd list \<Rightarrow> (subsubcmd \<Rightarrow> bool) \<Rightarrow> 'p state \<Rightarrow> outcome \<times> 'p state" where
  "set_shell_launch_command ext subsubcmds parsed s =
     (let got_subsubcmd = list_ex parsed subsubcmds
      in if \<not> got_subsubcmd
         then
           let s1 = load_with_defaults ext s;
               args = launch_args ext s1
           in (Exited (run_in_environment ext args), emit (Run_in_environment args) s1)
         else (Returned, s))"

subsection \<open>\<open>init_shell_parser\<close>\<close>

text \<open>The set given to \<open>CLI::IsMember\<close> for \<open>-s,--shell\<close>.\<close>

definition shell_choices :: "string list" where
  "shell_choices =
     [''bash'', ''posix'', ''powershell'', ''cmd.exe'', ''xonsh'', ''zsh'', ''fish'', ''tcsh'',
      ''dash'']"

definition IsMember :: "string list \<Rightarrow> string \<Rightarrow> bool" where
  "IsMember choices v = (v \<in> set choices)"

text \<open>
  The five names of the one option \<open>"prefix,-p,--prefix,-n,--name"\<close>: the positional
  argument and four flags. All of them write the configurable \<open>shell_prefix\<close>.
\<close>

datatype prefix_name = Positional | Short_p | Long_prefix | Short_n | Long_name

text \<open>
  A command line of \<open>micromamba shell\<close>: the value of \<open>-s,--shell\<close> when given, the value
  of the prefix option with the name it was given under, the flag \<open>--stack\<close>, and the
  sub-subcommands that were parsed, in order.
\<close>

record cli_args =
  arg_shell :: "string option"
  arg_prefix :: "(prefix_name \<times> string) option"
  arg_stack :: bool
  arg_subsubcmds :: "subsubcmd list"

definition store_prefix :: "(prefix_name \<times> string) option \<Rightarrow> configuration \<Rightarrow> configuration" where
  "store_prefix a cfg = (case a of None \<Rightarrow> cfg | Some (n, v) \<Rightarrow> cfg\<lparr>shell_prefix := v\<rparr>)"

definition init_shell_parser :: "cli_args \<Rightarrow> configuration \<Rightarrow> error + configuration" where
  "init_shell_parser args cfg =
     (case arg_shell args of
        None \<Rightarrow> Inr (store_prefix (arg_prefix args) cfg)
      | Some v \<Rightarrow>
          if IsMember shell_choices v
          then Inr (store_prefix (arg_prefix args) (cfg\<lparr>shell_type := v\<rparr>))
          else Inl (Validation_error v))"

subsection \<open>\<open>set_shell_command\<close>\<close>

definition subsubcmd_callback :: "'p externals \<Rightarrow> subsubcmd \<Rightarrow> 'p state \<Rightarrow> outcome \<times> 'p state" where
  "subsubcmd_callback ext c =
     (case c of
        Init \<Rightarrow> set_shell_init_command ext
      | Deinit \<Rightarrow> set_shell_deinit_command ext
      | Reinit \<Rightarrow> set_shell_reinit_command ext
      | Hook \<Rightarrow> set_shell_hook_command ext
      | Activate \<Rightarrow> set_shell_activate_command ext
      | Reactivate \<Rightarrow> set_shell_reactivate_command ext
      | Deactivate \<Rightarrow> set_shell_deactivate_command ext
      | Enable_long_path_support \<Rightarrow> set_shell_long_path_command ext)"

fun run_callbacks :: "'p externals \<Rightarrow> subsubcmd list \<Rightarrow> 'p state \<Rightarrow> outcome \<times> 'p state" where
  "run_callbacks ext [] s = (Returned, s)"
| "run_callbacks ext (c # cs) s =
     (case subsubcmd_callback ext c s of
        (Returned, s') \<Rightarrow> run_callbacks ext cs s'
      | (r, s') \<Rightarrow> (r, s'))"

text \<open>
  Modelled from the spec: the parser that checks the options and then runs the callbacks
  registered by \<open>set_shell_command\<close> is the CLI11 library, which is not under src/.
  Sections 4.1 and 7: validation occurs before any file or process side effect, and an
  identifier outside the enumerated set fails fast. The options are checked and stored
  first; then the callbacks of the parsed sub-subcommands run, and last the callback of
  \<open>shell\<close> itself, which (as the comment in \<open>set_shell_launch_command\<close> says) runs even
  with a sub-subcommand.
\<close>

definition set_shell_command :: "'p externals \<Rightarrow> cli_args \<Rightarrow> 'p state \<Rightarrow> outcome \<times> 'p state" where
  "set_shell_command ext args s =
     (case init_shell_parser args (config s) of
        Inl e \<Rightarrow> (Threw e, s)
      | Inr cfg \<Rightarrow>
          (case run_callbacks ext (arg_subsubcmds args)
                  (s\<lparr>config := cfg\<lparr>shell_stack := arg_stack args\<rparr>\<rparr>) of
             (Returned, s') \<Rightarrow>
               set_shell_launch_command ext all_subsubcmds
                 (\<lambda>c. c \<in> set (arg_subsubcmds args)) s'
           | (r, s') \<Rightarrow> (r, s')))"

text \<open>
  Modelled from the spec: the handler that turns the end of the command into the exit
  status of the process is in micromamba's main, which is not under src/. Section 7: an
  error terminates the invocation with a non-zero status. A call of \<open>exit\<close> is the C
  library's: on a POSIX system the parent sees only the low eight bits of the argument,
  so \<open>exit(256)\<close> is status 0 and \<open>exit(-1)\<close> is status 255.
\<close>

definition exit_status :: "outcome \<Rightarrow> int" where
  "exit_status r = (case r of Returned \<Rightarrow> 0 | Threw e \<Rightarrow> 1 | Exited n \<Rightarrow> n mod 256)"

subsection \<open>A concrete path type\<close>

text \<open>
  Modelled from the spec: \<open>fs::u8path\<close> and its operator \<open>/\<close> are declared in
  mamba/core/fsutil.hpp, which is not under src/. Section 8, scenario 2, gives
  \<open>"/root" / "envs" / "myenv"\<close> as \<open>/root/envs/myenv\<close>. The paths are strings, and the
  operator is that of \<open>std::filesystem::path\<close> on a POSIX system, which \<open>u8path\<close> wraps:
  an absolute right operand replaces the left one; otherwise it is appended, after a
  separator unless the left operand is empty or ends in one.
\<close>

definition posix_slash :: "string \<Rightarrow> string \<Rightarrow> string" where
  "posix_slash p q =
     (if q \<noteq> [] \<and> hd q = CHR ''/'' then q
      else if p \<noteq> [] \<and> last p \<noteq> CHR ''/'' then p @ ''/'' @ q
      else p @ q)"

text \<open>
  A Linux machine for the closed examples: \<open>SHELL\<close> is unset, the shell cannot be
  guessed, a spawned process ends with status 7, and the root prefix is \<open>/root\<close>.
\<close>

definition linux_ext :: "string externals" where
  "linux_ext =
     \<lparr>on_win = False, on_mac = False, env_get = (\<lambda>k. None), guess_shell = [],
      slash = posix_slash, run_in_environment = (\<lambda>a. 7), ALL_STREAMS = 0,
      MAMBA_NO_PREFIX_CHECK = 0\<rparr>"

definition initial_state :: "string state" where
  "initial_state =
     \<lparr>config = \<lparr>shell_type = [], shell_prefix = [], shell_stack = False, show_banner = True,
                use_target_prefix_fallback = True, target_prefix_checks = 1\<rparr>,
      ctx = \<lparr>prefix_params = \<lparr>root_prefix = ''/root''\<rparr>\<rparr>,
      trace = []\<rparr>"

definition no_args :: cli_args where
  "no_args = \<lparr>arg_shell = None, arg_prefix = None, arg_stack = False, arg_subsubcmds = []\<rparr>"

section \<open>The rc-file editor behind \<open>shell_init\<close> (mamba/api/shell.hpp)\<close>

text \<open>
  Modelled from the spec: \<open>shell_init\<close> is only declared in mamba/api/shell.hpp; its body
  is not under src/. Section 3, ShellDialect: an identifier, an rc-file path rule (a
  function of the user's home directory), the comment-delimiter pair that brackets
  managed blocks, and the rendering of the hook code (here: the lines of the hook for a
  prefix).
\<close>

record dialect =
  dialect_identifier :: string
  rc_file_rule :: "string \<Rightarrow> string list"
  block_start :: string
  block_end :: string
  hook_code :: "string \<Rightarrow> string list"

text \<open>
  Modelled from the spec: section 3, ManagedBlock: a delimited region inside an rc file,
  identified by its comment-delimiter pair, containing generated hook code. An rc file
  is its list of lines.
\<close>

definition managed_block :: "dialect \<Rightarrow> string \<Rightarrow> string list" where
  "managed_block d p = block_start d # hook_code d p @ [block_end d]"

text \<open>Modelled from the spec: a line that is neither delimiter of the dialect.\<close>

definition plain :: "dialect \<Rightarrow> string \<Rightarrow> bool" where
  "plain d l = (l \<noteq> block_start d \<and> l \<noteq> block_end d)"

text \<open>
  Modelled from the spec: a managed block begins at the head of \<open>ls\<close> when the head is
  the start delimiter and the next delimiter line after it is the end delimiter. The
  result is the body of the block and the lines after it.
\<close>

definition block_at :: "dialect \<Rightarrow> string list \<Rightarrow> (string list \<times> string list) option" where
  "block_at d ls =
     (case ls of
        [] \<Rightarrow> None
      | l # r \<Rightarrow>
          if l \<noteq> block_start d then None
          else (case dropWhile (plain d) r of
                  [] \<Rightarrow> None
                | e # post \<Rightarrow>
                    if e = block_end d then Some (takeWhile (plain d) r, post) else None))"

text \<open>
  Modelled from the spec: the first managed block of a file, with the lines before and
  after it; \<open>None\<close> when the block is absent.
\<close>

fun find_block ::
  "dialect \<Rightarrow> string list \<Rightarrow> (string list \<times> string list \<times> string list) option" where
  "find_block d [] = None"
| "find_block d (l # ls) =
     (case block_at d (l # ls) of
        Some (body, post) \<Rightarrow> Some ([], body, post)
      | None \<Rightarrow>
          (case find_block d ls of
             None \<Rightarrow> None
           | Some (pre, body, post) \<Rightarrow> Some (l # pre, body, post)))"

text \<open>
  Modelled from the spec: section 4.3, \<open>init\<close> on one file: if the managed block is
  absent, append it; if present and identical, no-op; if present but different, replace
  it in place, the content outside the block unchanged.
\<close>

definition init_content :: "dialect \<Rightarrow> string \<Rightarrow> string list \<Rightarrow> string list" where
  "init_content d p f =
     (case find_block d f of
        None \<Rightarrow> f @ managed_block d p
      | Some (pre, body, post) \<Rightarrow>
          if body = hook_code d p then f else pre @ managed_block d p @ post)"

text \<open>
  Modelled from the spec: section 4.3 and 7, \<open>RcFileUnwritable\<close>, reported with the
  failing path; the files on disk with their lines, and which paths can be written.
\<close>

datatype rc_error = RcFileUnwritable string

record filesystem =
  contents :: "string \<Rightarrow> string list option"
  writable :: "string \<Rightarrow> bool"

text \<open>Modelled from the spec: the lines of an rc file; a file that does not exist has none.\<close>

definition read_lines :: "filesystem \<Rightarrow> string \<Rightarrow> string list" where
  "read_lines fs path = (case contents fs path of None \<Rightarrow> [] | Some f \<Rightarrow> f)"

text \<open>
  Modelled from the spec: section 4.3, \<open>init\<close> over the rc files of the dialect, in
  order. A file that cannot be written ends the operation with \<open>RcFileUnwritable\<close> and
  keeps its content; each file that is written is replaced as a whole.
\<close>

fun init_files ::
  "dialect \<Rightarrow> string \<Rightarrow> string list \<Rightarrow> filesystem \<Rightarrow> rc_error option \<times> filesystem" where
  "init_files d p [] fs = (None, fs)"
| "init_files d p (path # paths) fs =
     (if \<not> writable fs path then (Some (RcFileUnwritable path), fs)
      else init_files d p paths
             (fs\<lparr>contents := (contents fs)(path \<mapsto> init_content d p (read_lines fs path))\<rparr>))"

text \<open>
  Modelled from the spec: section 4.3, \<open>init(dialect, prefix)\<close>: locate the dialect's rc
  files from the home directory, then edit each.
\<close>

definition init ::
  "dialect \<Rightarrow> string \<Rightarrow> string \<Rightarrow> filesystem \<Rightarrow> rc_error option \<times> filesystem" where
  "init d p home fs = init_files d p (rc_file_rule d home) fs"

text \<open>
  Modelled from the spec: section 3, the block is identified by its delimiter pair: the
  two delimiters differ and the hook code rendered for the prefix contains neither.
\<close>

definition well_delimited :: "dialect \<Rightarrow> string \<Rightarrow> bool" where
  "well_delimited d p =
     (block_start d \<noteq> block_end d \<and> list_all (plain d) (hook_code d p))"

text \<open>
  A dialect and a home directory for the closed examples. The rc file has a user line
  and a stray start delimiter without its end.
\<close>

definition example_dialect :: dialect where
  "example_dialect =
     \<lparr>dialect_identifier = ''bash'',
      rc_file_rule = (\<lambda>home. [home @ ''/.bashrc'']),
      block_start = ''# >>> mamba initialize >>>'',
      block_end = ''# <<< mamba initialize <<<'',
      hook_code = (\<lambda>p. [''export MAMBA_ROOT_PREFIX='' @ p])\<rparr>"

definition example_files :: filesystem where
  "example_files =
     \<lparr>contents = [''/home/u/.bashrc'' \<mapsto> [''alias ll=ls'', ''# >>> mamba initialize >>>'']],
      writable = (\<lambda>path. True)\<rparr>"

section \<open>Auxiliary definitions for the statements\<close>

text \<open>The state in which the configurable \<open>shell_prefix\<close> has the value \<open>v\<close>.\<close>

definition with_prefix :: "string \<Rightarrow> 'p state \<Rightarrow> 'p state" where
  "with_prefix v s = s\<lparr>config := (config s)\<lparr>shell_prefix := v\<rparr>\<rparr>"

text \<open>The sub-subcommands whose callback passes the shell type through \<open>consolidate_shell\<close>.\<close>

definition consolidating :: "subsubcmd \<Rightarrow> bool" where
  "consolidating c = (c = Init \<or> c = Deinit \<or> c = Hook \<or> c = Activate \<or> c = Reactivate)"

section \<open>Properties of the \<open>shell\<close> command\<close>

lemma posix_slash_relative:
  "\<not> (q \<noteq> [] \<and> hd q = CHR ''/'') \<Longrightarrow> \<exists>sep. posix_slash p q = p @ sep @ q"
  unfolding posix_slash_def by (cases "p \<noteq> [] \<and> last p \<noteq> CHR ''/''") auto

lemma posix_slash_envs_longer:
  assumes "p = [] \<or> p = ''base''"
  shows "posix_slash (posix_slash r ''envs'') p \<noteq> r"
proof -
  have "\<not> (''envs'' \<noteq> [] \<and> hd ''envs'' = CHR ''/'')" by simp
  then obtain sep where 1: "posix_slash r ''envs'' = r @ sep @ ''envs''"
    using posix_slash_relative by blast
  have "\<not> (p \<noteq> [] \<and> hd p = CHR ''/'')" using assms by auto
  then obtain sep' where 2: "posix_slash (r @ sep @ ''envs'') p = (r @ sep @ ''envs'') @ sep' @ p"
    using posix_slash_relative by blast
  show ?thesis unfolding 1 2 by simp
qed

lemma get_prefix_root:
  "shell_prefix (config s) = [] \<or> shell_prefix (config s) = ''base'' \<Longrightarrow>
   get_prefix ext s = root_prefix (prefix_params (ctx s))"
  by (simp add: get_prefix_def Let_def)

lemma get_prefix_envs:
  "shell_prefix (config s) \<noteq> [] \<Longrightarrow> shell_prefix (config s) \<noteq> ''base'' \<Longrightarrow>
   get_prefix ext s =
     slash ext (slash ext (root_prefix (prefix_params (ctx s))) ''envs'') (shell_prefix (config s))"
  by (simp add: get_prefix_def Let_def)

text \<open>
  Claim C1. In the launch path, an empty prefix string and the string \<open>base\<close> resolve
  to the root prefix; every other string resolves to \<open>root_prefix / "envs" / string\<close>,
  where \<open>/\<close> is the operator of \<open>fs::u8path\<close>, whatever that operator is. With the
  operator of a POSIX path, the root prefix that the empty and the \<open>base\<close> case yield
  is never the path \<open>root_prefix / "envs" / string\<close>.
\<close>

theorem get_prefix_resolution:
  fixes ext :: "'p externals" and s :: "'p state"
    and ext' :: "string externals" and s' :: "string state"
  shows
  "(shell_prefix (config s) = [] \<or> shell_prefix (config s) = ''base'' \<longrightarrow>
      get_prefix ext s = root_prefix (prefix_params (ctx s))) \<and>
   (shell_prefix (config s) \<noteq> [] \<and> shell_prefix (config s) \<noteq> ''base'' \<longrightarrow>
      get_prefix ext s =
        slash ext (slash ext (root_prefix (prefix_params (ctx s))) ''envs'')
          (shell_prefix (config s))) \<and>
   (slash ext' = posix_slash \<and>
    (shell_prefix (config s') = [] \<or> shell_prefix (config s') = ''base'') \<longrightarrow>
      get_prefix ext' s' \<noteq>
        slash ext' (slash ext' (root_prefix (prefix_params (ctx s'))) ''envs'')
          (shell_prefix (config s')))"
proof (intro conjI impI)
  assume "shell_prefix (config s) = [] \<or> shell_prefix (config s) = ''base''"
  then show "get_prefix ext s = root_prefix (prefix_params (ctx s))"
    by (rule get_prefix_root)
next
  assume "shell_prefix (config s) \<noteq> [] \<and> shell_prefix (config s) \<noteq> ''base''"
  then show "get_prefix ext s =
        slash ext (slash ext (root_prefix (prefix_params (ctx s))) ''envs'')
          (shell_prefix (config s))"
    by (simp add: get_prefix_envs)
next
  assume a: "slash ext' = posix_slash \<and>
    (shell_prefix (config s') = [] \<or> shell_prefix (config s') = ''base'')"
  then have "get_prefix ext' s' = root_prefix (prefix_params (ctx s'))"
    by (simp add: get_prefix_root)
  moreover have "posix_slash (posix_slash (root_prefix (prefix_params (ctx s'))) ''envs'')
          (shell_prefix (config s')) \<noteq> root_prefix (prefix_params (ctx s'))"
    using a by (intro posix_slash_envs_longer) simp
  ultimately show "get_prefix ext' s' \<noteq>
        slash ext' (slash ext' (root_prefix (prefix_params (ctx s'))) ''envs'')
          (shell_prefix (config s'))"
    using a by simp
qed

lemma shell_prefix_with_prefix: "shell_prefix (config (with_prefix v s)) = v"
  by (simp add: with_prefix_def)

lemma root_with_prefix: "root_prefix (prefix_params (ctx (with_prefix v initial_state))) = ''/root''"
  by (simp add: with_prefix_def initial_state_def)

lemma slash_linux_ext: "slash linux_ext = posix_slash"
  by (simp add: linux_ext_def)

lemma root_envs: "posix_slash ''/root'' ''envs'' = ''/root/envs''"
  by (simp add: posix_slash_def)

lemma root_envs_myenv: "posix_slash ''/root/envs'' ''myenv'' = ''/root/envs/myenv''"
  by (simp add: posix_slash_def)

lemma root_envs_base: "posix_slash ''/root/envs'' ''base'' = ''/root/envs/base''"
  by (simp add: posix_slash_def)

theorem get_prefix_resolution_witness:
  "get_prefix linux_ext (with_prefix ''base'' initial_state) = ''/root'' \<and>
   get_prefix linux_ext (with_prefix ''myenv'' initial_state) = ''/root/envs/myenv'' \<and>
   get_prefix linux_ext (with_prefix ''base'' initial_state) \<noteq> ''/root/envs/base''"
  using get_prefix_resolution[of "with_prefix ''base'' initial_state" linux_ext linux_ext "with_prefix ''base'' initial_state"]
    get_prefix_resolution[of "with_prefix ''myenv'' initial_state" linux_ext linux_ext "with_prefix ''base'' initial_state"]
  by (simp add: shell_prefix_with_prefix root_with_prefix slash_linux_ext root_envs root_envs_myenv root_envs_base)

lemma IsMember_shell_choices:
  "IsMember shell_choices v \<longleftrightarrow>
     v = ''bash'' \<or> v = ''posix'' \<or> v = ''powershell'' \<or> v = ''cmd.exe'' \<or> v = ''xonsh'' \<or>
     v = ''zsh'' \<or> v = ''fish'' \<or> v = ''tcsh'' \<or> v = ''dash''"
  unfolding IsMember_def shell_choices_def by (simp only: set_simps insert_iff empty_iff simp_thms)

lemma init_shell_parser_rejects:
  "\<not> IsMember shell_choices v \<Longrightarrow>
   init_shell_parser (args\<lparr>arg_shell := Some v\<rparr>) cfg = Inl (Validation_error v)"
  by (simp add: init_shell_parser_def)

lemma init_shell_parser_accepts:
  "IsMember shell_choices v \<Longrightarrow>
   init_shell_parser (args\<lparr>arg_shell := Some v\<rparr>) cfg =
     Inr (store_prefix (arg_prefix args) (cfg\<lparr>shell_type := v\<rparr>))"
  by (simp add: init_shell_parser_def)

text \<open>
  Claim C2. A value given to \<open>-s,--shell\<close> is accepted exactly when it is one of the
  nine identifiers. Any other value fails the check, and the command ends with the
  validation error in the state it started in: no callback has run, the trace and the
  configuration are untouched.
\<close>

theorem shell_option_validation:
  "((\<exists>cfg'. init_shell_parser (args\<lparr>arg_shell := Some v\<rparr>) cfg = Inr cfg') \<longleftrightarrow>
      v = ''bash'' \<or> v = ''posix'' \<or> v = ''powershell'' \<or> v = ''cmd.exe'' \<or> v = ''xonsh'' \<or>
      v = ''zsh'' \<or> v = ''fish'' \<or> v = ''tcsh'' \<or> v = ''dash'') \<and>
   (\<not> (v = ''bash'' \<or> v = ''posix'' \<or> v = ''powershell'' \<or> v = ''cmd.exe'' \<or> v = ''xonsh'' \<or>
      v = ''zsh'' \<or> v = ''fish'' \<or> v = ''tcsh'' \<or> v = ''dash'') \<longrightarrow>
      init_shell_parser (args\<lparr>arg_shell := Some v\<rparr>) cfg = Inl (Validation_error v) \<and>
      set_shell_command ext (args\<lparr>arg_shell := Some v\<rparr>) s = (Threw (Validation_error v), s))"
proof (cases "IsMember shell_choices v")
  case True
  then show ?thesis
    using init_shell_parser_accepts[OF True, of args cfg] by (simp add: IsMember_shell_choices)
next
  case False
  then have "init_shell_parser (args\<lparr>arg_shell := Some v\<rparr>) cfg = Inl (Validation_error v)"
    and "init_shell_parser (args\<lparr>arg_shell := Some v\<rparr>) (config s) = Inl (Validation_error v)"
    by (simp_all add: init_shell_parser_rejects)
  then show ?thesis using False
    by (simp add: IsMember_shell_choices set_shell_command_def)
qed

theorem shell_option_validation_witness:
  "(\<exists>cfg'. init_shell_parser (no_args\<lparr>arg_shell := Some ''fish''\<rparr>) (config initial_state) = Inr cfg') \<and>
   set_shell_command linux_ext (no_args\<lparr>arg_shell := Some ''notashell''\<rparr>) initial_state =
     (Threw (Validation_error ''notashell''), initial_state)"
  using shell_option_validation[where args=no_args and v="''fish''" and cfg="config initial_state" and ext=linux_ext and s=initial_state]
    shell_option_validation[where args=no_args and v="''notashell''" and cfg="config initial_state" and ext=linux_ext and s=initial_state]
  by simp

lemma trace_emit: "trace (emit e s) = trace s @ [e]"
  by (simp add: emit_def)

lemma config_emit: "config (emit e s) = config s"
  by (simp add: emit_def)

lemma ctx_emit: "ctx (emit e s) = ctx s"
  by (simp add: emit_def)

lemma shell_type_load: "shell_type (config (load_with_defaults ext s)) = shell_type (config s)"
  by (simp add: load_with_defaults_def set_default_config_options_def config_emit)

lemma shell_prefix_load: "shell_prefix (config (load_with_defaults ext s)) = shell_prefix (config s)"
  by (simp add: load_with_defaults_def set_default_config_options_def config_emit)

lemma ctx_load: "ctx (load_with_defaults ext s) = ctx s"
  by (simp add: load_with_defaults_def ctx_emit)

lemma trace_load: "trace (load_with_defaults ext s) = trace s @ [Config_load]"
  by (simp add: load_with_defaults_def trace_emit)

lemma consolidate_shell_explicit:
  "st \<noteq> [] \<Longrightarrow> consolidate_shell ext st s = (Inr st, s)"
  by (simp add: consolidate_shell_def)

lemma consolidate_shell_guessed:
  "guess_shell ext \<noteq> [] \<Longrightarrow> fst (consolidate_shell ext [] s) = Inr (guess_shell ext)"
  by (simp add: consolidate_shell_def Let_def)

lemma consolidate_shell_fails:
  "guess_shell ext = [] \<Longrightarrow>
   consolidate_shell ext [] s =
     (Inl (Runtime_error ''Unknown shell type. Aborting.''),
      emit (Log_error provide_shell_message) (emit (Log_debug ''No shell type provided'') s))"
  by (simp add: consolidate_shell_def Let_def)

lemma consolidating_callback_throws:
  assumes "consolidating c" "shell_type (config s) = []" "guess_shell ext = []"
  shows "fst (subsubcmd_callback ext c s) = Threw (Runtime_error ''Unknown shell type. Aborting.'')"
proof -
  have "consolidate_shell ext (shell_type (config (load_with_defaults ext s))) (load_with_defaults ext s) =
     (Inl (Runtime_error ''Unknown shell type. Aborting.''),
      emit (Log_error provide_shell_message)
        (emit (Log_debug ''No shell type provided'') (load_with_defaults ext s)))"
    using assms(2,3) by (simp add: shell_type_load consolidate_shell_fails)
  then show ?thesis using assms(1)
    by (auto simp: consolidating_def subsubcmd_callback_def set_shell_init_command_def
        set_shell_deinit_command_def set_shell_hook_command_def set_shell_activate_command_def
        set_shell_reactivate_command_def Let_def)
qed

text \<open>
  Claim C3. \<open>consolidate_shell\<close> returns a non-empty explicit shell type unchanged, and
  the state with it; for an empty one it returns the guessed shell when that is not
  empty; when both are empty it throws, after logging the error message that asks for a
  shell type. A callback that consolidates then ends by that exception, and the exit
  status is not zero.
\<close>

theorem consolidate_shell_cases:
  "(st \<noteq> [] \<longrightarrow> consolidate_shell ext st s = (Inr st, s)) \<and>
   (st = [] \<and> guess_shell ext \<noteq> [] \<longrightarrow>
      fst (consolidate_shell ext st s) = Inr (guess_shell ext)) \<and>
   (st = [] \<and> guess_shell ext = [] \<longrightarrow>
      fst (consolidate_shell ext st s) = Inl (Runtime_error ''Unknown shell type. Aborting.'') \<and>
      trace (snd (consolidate_shell ext st s)) =
        trace s @ [Log_debug ''No shell type provided'', Log_error provide_shell_message]) \<and>
   (consolidating c \<and> shell_type (config s) = [] \<and> guess_shell ext = [] \<longrightarrow>
      fst (subsubcmd_callback ext c s) = Threw (Runtime_error ''Unknown shell type. Aborting.'') \<and>
      exit_status (fst (subsubcmd_callback ext c s)) \<noteq> 0)"
proof (intro conjI impI)
  assume "st \<noteq> []"
  then show "consolidate_shell ext st s = (Inr st, s)" by (rule consolidate_shell_explicit)
next
  assume "st = [] \<and> guess_shell ext \<noteq> []"
  then show "fst (consolidate_shell ext st s) = Inr (guess_shell ext)"
    by (simp add: consolidate_shell_guessed)
next
  assume "st = [] \<and> guess_shell ext = []"
  then show "fst (consolidate_shell ext st s) = Inl (Runtime_error ''Unknown shell type. Aborting.'')"
    by (simp add: consolidate_shell_fails)
next
  assume "st = [] \<and> guess_shell ext = []"
  then show "trace (snd (consolidate_shell ext st s)) =
        trace s @ [Log_debug ''No shell type provided'', Log_error provide_shell_message]"
    by (simp add: consolidate_shell_fails trace_emit)
next
  assume a: "consolidating c \<and> shell_type (config s) = [] \<and> guess_shell ext = []"
  then show t: "fst (subsubcmd_callback ext c s) = Threw (Runtime_error ''Unknown shell type. Aborting.'')"
    by (simp add: consolidating_callback_throws)
  show "exit_status (fst (subsubcmd_callback ext c s)) \<noteq> 0"
    unfolding t by (simp add: exit_status_def)
qed

lemma guess_linux_ext: "guess_shell linux_ext = []"
  by (simp add: linux_ext_def)

lemma shell_type_initial: "shell_type (config initial_state) = []"
  by (simp add: initial_state_def)

lemma trace_initial: "trace initial_state = []"
  by (simp add: initial_state_def)

theorem consolidate_shell_cases_witness:
  "consolidate_shell linux_ext ''zsh'' initial_state = (Inr ''zsh'', initial_state) \<and>
   fst (consolidate_shell (linux_ext\<lparr>guess_shell := ''fish''\<rparr>) [] initial_state) = Inr ''fish'' \<and>
   fst (consolidate_shell linux_ext [] initial_state) =
     Inl (Runtime_error ''Unknown shell type. Aborting.'') \<and>
   trace (snd (consolidate_shell linux_ext [] initial_state)) =
     [Log_debug ''No shell type provided'', Log_error provide_shell_message] \<and>
   exit_status (fst (subsubcmd_callback linux_ext Hook initial_state)) \<noteq> 0"
  using consolidate_shell_cases[where st="''zsh''" and ext=linux_ext and s=initial_state and c=Hook]
    consolidate_shell_cases[where st="[]" and ext="linux_ext\<lparr>guess_shell := ''fish''\<rparr>" and s=initial_state and c=Hook]
    consolidate_shell_cases[where st="[]" and ext=linux_ext and s=initial_state and c=Hook]
  by (simp add: guess_linux_ext shell_type_initial trace_initial consolidating_def)

lemma value_or_Some: "value_or (Some v) d = v"
  by (simp add: value_or_def)

lemma value_or_None: "value_or None d = d"
  by (simp add: value_or_def)

text \<open>
  Claim C4. The command to launch is the value of \<open>SHELL\<close> when the variable is set.
  When it is unset the command is \<open>cmd.exe\<close> on Windows, \<open>zsh\<close> on macOS and \<open>bash\<close>
  elsewhere. That one string is the command given to \<open>run_in_environment\<close>.
\<close>

theorem get_shell_fallback:
  "(env_get ext ''SHELL'' = Some sh \<longrightarrow> get_shell ext = sh) \<and>
   (env_get ext ''SHELL'' = None \<and> on_win ext \<longrightarrow> get_shell ext = ''cmd.exe'') \<and>
   (env_get ext ''SHELL'' = None \<and> \<not> on_win ext \<and> on_mac ext \<longrightarrow> get_shell ext = ''zsh'') \<and>
   (env_get ext ''SHELL'' = None \<and> \<not> on_win ext \<and> \<not> on_mac ext \<longrightarrow> get_shell ext = ''bash'') \<and>
   run_command (launch_args ext s) = [get_shell ext]"
  by (simp add: get_shell_def value_or_Some value_or_None launch_args_def)

theorem get_shell_fallback_witness:
  "get_shell (linux_ext\<lparr>env_get := (\<lambda>k. if k = ''SHELL'' then Some ''/bin/fish'' else None)\<rparr>) = ''/bin/fish'' \<and>
   get_shell (linux_ext\<lparr>on_win := True\<rparr>) = ''cmd.exe'' \<and>
   get_shell (linux_ext\<lparr>on_mac := True\<rparr>) = ''zsh'' \<and>
   get_shell linux_ext = ''bash'' \<and>
   run_command (launch_args linux_ext initial_state) = [''bash'']"
  using get_shell_fallback[where ext="linux_ext\<lparr>env_get := (\<lambda>k. if k = ''SHELL'' then Some ''/bin/fish'' else None)\<rparr>" and sh="''/bin/fish''" and s=initial_state]
    get_shell_fallback[where ext="linux_ext\<lparr>on_win := True\<rparr>" and sh="[]" and s=initial_state]
    get_shell_fallback[where ext="linux_ext\<lparr>on_mac := True\<rparr>" and sh="[]" and s=initial_state]
    get_shell_fallback[where ext="linux_ext" and sh="[]" and s=initial_state]
  by (simp add: linux_ext_def)

lemma launch_runs:
  "\<not> list_ex parsed subsubcmds \<Longrightarrow>
   set_shell_launch_command ext subsubcmds parsed s =
     (Exited (run_in_environment ext (launch_args ext (load_with_defaults ext s))),
      emit (Run_in_environment (launch_args ext (load_with_defaults ext s)))
        (load_with_defaults ext s))"
  by (simp add: set_shell_launch_command_def Let_def)

lemma launch_skips:
  "list_ex parsed subsubcmds \<Longrightarrow>
   set_shell_launch_command ext subsubcmds parsed s = (Returned, s)"
  by (simp add: set_shell_launch_command_def Let_def)

lemma got_subsubcmd_iff: "list_ex parsed all_subsubcmds \<longleftrightarrow> (\<exists>c. parsed c)"
proof
  assume "list_ex parsed all_subsubcmds"
  then show "\<exists>c. parsed c" by (auto simp: list_ex_iff)
next
  assume "\<exists>c. parsed c"
  then obtain c where c: "parsed c" ..
  have "c \<in> set all_subsubcmds" by (cases c) (simp_all add: all_subsubcmds_def)
  with c show "list_ex parsed all_subsubcmds" by (auto simp: list_ex_iff)
qed

lemma run_linux_ext: "run_in_environment linux_ext a = 7"
  by (simp add: linux_ext_def)




lemma run_callbacks_then_launch:
  assumes "cs \<noteq> []"
  shows "(case run_callbacks ext cs s0 of
            (Returned, s') \<Rightarrow> set_shell_launch_command ext all_subsubcmds (\<lambda>c. c \<in> set cs) s'
          | (r, s') \<Rightarrow> (r, s')) = run_callbacks ext cs s0"
proof -
  have "\<exists>c. c \<in> set cs" using assms by (cases cs) auto
  then have g: "list_ex (\<lambda>c. c \<in> set cs) all_subsubcmds" by (simp add: got_subsubcmd_iff)
  obtain r s' where rs: "run_callbacks ext cs s0 = (r, s')" by (cases "run_callbacks ext cs s0")
  show ?thesis unfolding rs using g by (cases r) (simp_all add: launch_skips)
qed

lemma set_shell_command_subsubcmds:
  assumes "arg_subsubcmds args \<noteq> []" "init_shell_parser args (config s) = Inr cfg"
  shows "set_shell_command ext args s =
           run_callbacks ext (arg_subsubcmds args)
             (s\<lparr>config := cfg\<lparr>shell_stack := arg_stack args\<rparr>\<rparr>)"
  using assms(2)
    run_callbacks_then_launch[OF assms(1), of ext "s\<lparr>config := cfg\<lparr>shell_stack := arg_stack args\<rparr>\<rparr>"]
  by (simp add: set_shell_command_def)

text \<open>
  Claim C8. When one of the eight sub-subcommands was parsed, the launch callback returns
  and leaves the whole state as it was: no defaults written, no configuration load, no
  spawn. When none was parsed it loads the configuration, spawns the shell and exits. A
  command line with a sub-subcommand therefore does what the callbacks of its
  sub-subcommands do, and nothing more.
\<close>

theorem launch_only_without_subsubcmd:
  "((\<exists>c. parsed c) \<longrightarrow>
      set_shell_launch_command ext all_subsubcmds parsed s = (Returned, s)) \<and>
   ((\<forall>c. \<not> parsed c) \<longrightarrow>
      set_shell_launch_command ext all_subsubcmds parsed s =
        (Exited (run_in_environment ext (launch_args ext (load_with_defaults ext s))),
         emit (Run_in_environment (launch_args ext (load_with_defaults ext s)))
           (load_with_defaults ext s))) \<and>
   (arg_subsubcmds args \<noteq> [] \<and> init_shell_parser args (config s) = Inr cfg \<longrightarrow>
      set_shell_command ext args s =
        run_callbacks ext (arg_subsubcmds args) (s\<lparr>config := cfg\<lparr>shell_stack := arg_stack args\<rparr>\<rparr>))"
proof (intro conjI impI)
  assume "\<exists>c. parsed c"
  then have "list_ex parsed all_subsubcmds" by (simp add: got_subsubcmd_iff)
  then show "set_shell_launch_command ext all_subsubcmds parsed s = (Returned, s)"
    by (rule launch_skips)
next
  assume "\<forall>c. \<not> parsed c"
  then have "\<not> list_ex parsed all_subsubcmds" by (simp add: got_subsubcmd_iff)
  then show "set_shell_launch_command ext all_subsubcmds parsed s =
        (Exited (run_in_environment ext (launch_args ext (load_with_defaults ext s))),
         emit (Run_in_environment (launch_args ext (load_with_defaults ext s)))
           (load_with_defaults ext s))"
    by (rule launch_runs)
next
  assume "arg_subsubcmds args \<noteq> [] \<and> init_shell_parser args (config s) = Inr cfg"
  then show "set_shell_command ext args s =
        run_callbacks ext (arg_subsubcmds args) (s\<lparr>config := cfg\<lparr>shell_stack := arg_stack args\<rparr>\<rparr>)"
    by (simp add: set_shell_command_subsubcmds)
qed

lemma init_shell_parser_no_shell:
  "arg_shell args = None \<Longrightarrow>
   init_shell_parser args cfg = Inr (store_prefix (arg_prefix args) cfg)"
  by (simp add: init_shell_parser_def)

lemma deactivate_callback:
  "set_shell_deactivate_command ext s =
     (Returned,
      emit Operation_teardown
        (emit (Shell_deactivate (shell_type (config s))) (load_with_defaults ext s)))"
  by (simp add: set_shell_deactivate_command_def Let_def shell_type_load)

lemma parse_no_args:
  "init_shell_parser (no_args\<lparr>arg_subsubcmds := cs\<rparr>) (config initial_state) =
     Inr (config initial_state)"
  by (simp add: init_shell_parser_no_shell no_args_def store_prefix_def)

lemma stack_no_args:
  "initial_state\<lparr>config := (config initial_state)\<lparr>shell_stack := arg_stack (no_args\<lparr>arg_subsubcmds := cs\<rparr>)\<rparr>\<rparr> =
     initial_state"
  by (simp add: no_args_def initial_state_def)

lemma set_shell_command_no_options:
  "cs \<noteq> [] \<Longrightarrow>
   set_shell_command linux_ext (no_args\<lparr>arg_subsubcmds := cs\<rparr>) initial_state =
     run_callbacks linux_ext cs initial_state"
  using set_shell_command_subsubcmds[of "no_args\<lparr>arg_subsubcmds := cs\<rparr>" initial_state
      "config initial_state" linux_ext] parse_no_args[of cs] stack_no_args[of cs]
  by simp

theorem launch_only_without_subsubcmd_witness:
  "set_shell_launch_command linux_ext all_subsubcmds (\<lambda>c. c = Hook) initial_state =
     (Returned, initial_state) \<and>
   fst (set_shell_launch_command linux_ext all_subsubcmds (\<lambda>c. False) initial_state) = Exited 7 \<and>
   set_shell_command linux_ext (no_args\<lparr>arg_subsubcmds := [Deactivate]\<rparr>) initial_state =
     run_callbacks linux_ext [Deactivate]
       (initial_state\<lparr>config := (config initial_state)\<lparr>shell_stack := False\<rparr>\<rparr>)"
proof -
  have a: "arg_stack (no_args\<lparr>arg_subsubcmds := [Deactivate]\<rparr>) = False"
    by (simp add: no_args_def)
  have b: "arg_subsubcmds (no_args\<lparr>arg_subsubcmds := [Deactivate]\<rparr>) = [Deactivate]"
    by simp
  show ?thesis
    using launch_only_without_subsubcmd[where parsed="\<lambda>c. c = Hook" and ext=linux_ext
        and s=initial_state and args="no_args\<lparr>arg_subsubcmds := [Deactivate]\<rparr>"
        and cfg="config initial_state"]
      launch_only_without_subsubcmd[where parsed="\<lambda>c. False" and ext=linux_ext
        and s=initial_state and args="no_args\<lparr>arg_subsubcmds := [Deactivate]\<rparr>"
        and cfg="config initial_state"]
    unfolding a b parse_no_args
    by (simp add: run_linux_ext del: run_callbacks.simps)
qed

text \<open>
  Claim C10. Whatever the prefix string is, the launch path spawns the shell with the
  working directory \<open>"."\<close>; the resolved prefix is the first argument, not the working
  directory.
\<close>

theorem launch_working_directory:
  assumes "\<not> list_ex parsed subsubcmds"
  shows "\<exists>a. trace (snd (set_shell_launch_command ext subsubcmds parsed (with_prefix v s))) =
               trace s @ [Config_load, Run_in_environment a] \<and>
             run_prefix a = get_prefix ext (with_prefix v s) \<and>
             run_cwd a = ''.''"
proof -
  let ?s = "with_prefix v s"
  let ?a = "launch_args ext (load_with_defaults ext ?s)"
  have "trace (snd (set_shell_launch_command ext subsubcmds parsed ?s)) =
          trace ?s @ [Config_load, Run_in_environment ?a]"
    using assms by (simp add: launch_runs trace_emit trace_load)
  moreover have "trace ?s = trace s" by (simp add: with_prefix_def)
  moreover have "run_prefix ?a = get_prefix ext ?s"
    by (simp add: launch_args_def get_prefix_def Let_def shell_prefix_load ctx_load)
  moreover have "run_cwd ?a = ''.''" by (simp add: launch_args_def)
  ultimately show ?thesis by auto
qed

theorem launch_working_directory_witness:
  "\<not> list_ex (\<lambda>c. False) all_subsubcmds \<and>
   (\<exists>a. trace (snd (set_shell_launch_command linux_ext all_subsubcmds (\<lambda>c. False)
                      (with_prefix ''myenv'' initial_state))) =
          [Config_load, Run_in_environment a] \<and>
        run_prefix a = ''/root/envs/myenv'' \<and> run_cwd a = ''.'')"
proof -
  have h: "\<not> list_ex (\<lambda>c. False) all_subsubcmds" by (simp add: list_ex_iff)
  have g: "get_prefix linux_ext (with_prefix ''myenv'' initial_state) = ''/root/envs/myenv''"
    by (simp add: get_prefix_envs shell_prefix_with_prefix root_with_prefix slash_linux_ext
        root_envs root_envs_myenv)
  show ?thesis
    using h launch_working_directory[OF h, of linux_ext "''myenv''" initial_state]
    by (simp add: g trace_initial)
qed

text \<open>
  Claim C6, on the code: \<open>shell deactivate\<close> with no shell type and no guess. The
  callback does not fail: it calls \<open>shell_deactivate\<close> with the empty string and returns.
  \<open>shell reactivate\<close> on the same input throws the error of \<open>consolidate_shell\<close>.
\<close>

theorem deactivate_skips_consolidate_shell:
  "fst (set_shell_command linux_ext (no_args\<lparr>arg_subsubcmds := [Deactivate]\<rparr>) initial_state) =
     Returned \<and>
   trace (snd (set_shell_command linux_ext (no_args\<lparr>arg_subsubcmds := [Deactivate]\<rparr>)
                 initial_state)) =
     [Config_load, Shell_deactivate [], Operation_teardown] \<and>
   fst (set_shell_command linux_ext (no_args\<lparr>arg_subsubcmds := [Reactivate]\<rparr>) initial_state) =
     Threw (Runtime_error ''Unknown shell type. Aborting.'')"
proof -
  have 1: "set_shell_command linux_ext (no_args\<lparr>arg_subsubcmds := [Deactivate]\<rparr>) initial_state =
     (Returned,
      emit Operation_teardown
        (emit (Shell_deactivate []) (load_with_defaults linux_ext initial_state)))"
    by (simp add: set_shell_command_no_options subsubcmd_callback_def deactivate_callback
        shell_type_initial)
  have "consolidating Reactivate" by (simp add: consolidating_def)
  then have "fst (subsubcmd_callback linux_ext Reactivate initial_state) =
     Threw (Runtime_error ''Unknown shell type. Aborting.'')"
    by (rule consolidating_callback_throws) (simp_all add: shell_type_initial guess_linux_ext)
  then have 2: "fst (set_shell_command linux_ext (no_args\<lparr>arg_subsubcmds := [Reactivate]\<rparr>) initial_state) =
     Threw (Runtime_error ''Unknown shell type. Aborting.'')"
    by (cases "subsubcmd_callback linux_ext Reactivate initial_state")
       (simp add: set_shell_command_no_options)
  show ?thesis unfolding 1 using 2 by (simp add: trace_emit trace_load trace_initial)
qed

lemma store_prefix_Some: "store_prefix (Some (n, v)) cfg = cfg\<lparr>shell_prefix := v\<rparr>"
  by (simp add: store_prefix_def)

lemma parse_prefix_option:
  "init_shell_parser (no_args\<lparr>arg_prefix := Some (n, v)\<rparr>) (config s) =
     Inr ((config s)\<lparr>shell_prefix := v\<rparr>)"
  by (simp add: init_shell_parser_def no_args_def store_prefix_Some)

text \<open>
  Claim C7, as stated, fails: the value \<open>myenv\<close> given through \<open>-p\<close> or as the positional
  argument is stored exactly as when given through \<open>-n\<close>, and the launch path resolves it
  under \<open>envs\<close>.
\<close>

theorem prefix_option_counterexample:
  "init_shell_parser (no_args\<lparr>arg_prefix := Some (Short_p, ''myenv'')\<rparr>) (config initial_state) =
     Inr (config (with_prefix ''myenv'' initial_state)) \<and>
   init_shell_parser (no_args\<lparr>arg_prefix := Some (Positional, ''myenv'')\<rparr>) (config initial_state) =
     Inr (config (with_prefix ''myenv'' initial_state)) \<and>
   init_shell_parser (no_args\<lparr>arg_prefix := Some (Short_n, ''myenv'')\<rparr>) (config initial_state) =
     Inr (config (with_prefix ''myenv'' initial_state)) \<and>
   get_prefix linux_ext (with_prefix ''myenv'' initial_state) = ''/root/envs/myenv'' \<and>
   get_prefix linux_ext (with_prefix ''myenv'' initial_state) \<noteq> ''myenv''"
proof -
  have g: "get_prefix linux_ext (with_prefix ''myenv'' initial_state) = ''/root/envs/myenv''"
    by (simp add: get_prefix_envs shell_prefix_with_prefix root_with_prefix slash_linux_ext
        root_envs root_envs_myenv)
  show ?thesis unfolding g by (simp add: parse_prefix_option with_prefix_def)
qed

text \<open>
  Claim C7, amended. The positional argument, \<open>-p\<close>, \<open>--prefix\<close>, \<open>-n\<close> and \<open>--name\<close> are
  names of one option: under every name the value is stored in \<open>shell_prefix\<close>, and the
  launch path resolves it to the root prefix when it is empty or \<open>base\<close>, and to
  \<open>root_prefix / "envs" / value\<close> otherwise.
\<close>

theorem prefix_names_one_option:
  "init_shell_parser (no_args\<lparr>arg_prefix := Some (n, v)\<rparr>) (config s) =
     Inr (config (with_prefix v s)) \<and>
   get_prefix ext (with_prefix v s) =
     (if v = [] \<or> v = ''base'' then root_prefix (prefix_params (ctx s))
      else slash ext (slash ext (root_prefix (prefix_params (ctx s))) ''envs'') v)"
proof -
  have "ctx (with_prefix v s) = ctx s" by (simp add: with_prefix_def)
  then show ?thesis
    by (simp add: parse_prefix_option get_prefix_def Let_def shell_prefix_with_prefix)
       (simp add: with_prefix_def)
qed

theorem prefix_names_one_option_witness:
  "init_shell_parser (no_args\<lparr>arg_prefix := Some (Long_name, ''work/env'')\<rparr>) (config initial_state) =
     Inr (config (with_prefix ''work/env'' initial_state)) \<and>
   init_shell_parser (no_args\<lparr>arg_prefix := Some (Long_prefix, ''work/env'')\<rparr>) (config initial_state) =
     Inr (config (with_prefix ''work/env'' initial_state)) \<and>
   get_prefix linux_ext (with_prefix ''work/env'' initial_state) = ''/root/envs/work/env''"
proof -
  have e: "posix_slash ''/root/envs'' ''work/env'' = ''/root/envs/work/env''"
    by (simp add: posix_slash_def)
  show ?thesis
    using prefix_names_one_option[of Long_name "''work/env''" initial_state linux_ext]
      prefix_names_one_option[of Long_prefix "''work/env''" initial_state linux_ext]
    by (simp add: slash_linux_ext root_envs e initial_state_def)
qed

section \<open>Properties of the rc-file editor\<close>

lemma block_at_sound:
  "block_at d ls = Some (body, post) \<Longrightarrow> ls = block_start d # body @ block_end d # post"
  unfolding block_at_def
  by (auto split: list.splits if_splits) (metis takeWhile_dropWhile_id)

lemma find_block_sound:
  "find_block d f = Some (pre, body, post) \<Longrightarrow> f = pre @ block_start d # body @ block_end d # post"
proof (induction f arbitrary: pre)
  case Nil
  then show ?case by simp
next
  case (Cons l ls)
  then show ?case
    by (auto split: option.splits dest: block_at_sound)
qed

lemma block_at_managed:
  assumes "list_all (plain d) h"
  shows "block_at d (block_start d # h @ block_end d # post) = Some (h, post)"
proof -
  have 1: "dropWhile (plain d) (h @ block_end d # post) = block_end d # post"
    using assms by (simp add: dropWhile_append2 list_all_iff plain_def)
  have 2: "takeWhile (plain d) (h @ block_end d # post) = h"
    using assms by (simp add: takeWhile_append2 list_all_iff plain_def)
  show ?thesis unfolding block_at_def by (simp add: 1 2)
qed

text \<open>Whether a block starts at the head does not depend on what follows the next delimiter.\<close>

lemma block_at_None_ext:
  assumes "block_at d (l # pre @ block_start d # xs) = None" "block_start d \<noteq> block_end d"
  shows "block_at d (l # pre @ block_start d # ys) = None"
proof (cases "list_all (plain d) pre")
  case True
  then have "dropWhile (plain d) (pre @ block_start d # ys) = block_start d # ys"
    by (simp add: dropWhile_append2 list_all_iff plain_def)
  then show ?thesis using assms(2) unfolding block_at_def by simp
next
  case False
  then have ne: "dropWhile (plain d) pre \<noteq> []" by (simp add: list_all_iff dropWhile_eq_Nil_conv)
  have a: "\<And>zs. dropWhile (plain d) (pre @ zs) = dropWhile (plain d) pre @ zs"
    using False by (auto simp: list_all_iff dropWhile_append1)
  have b: "\<And>zs. takeWhile (plain d) (pre @ zs) = takeWhile (plain d) pre"
    using False by (auto simp: list_all_iff takeWhile_append1)
  obtain e r where er: "dropWhile (plain d) pre = e # r" using ne by (cases "dropWhile (plain d) pre") auto
  show ?thesis using assms(1) unfolding block_at_def
    by (simp add: a b er split: if_splits)
qed

lemma block_at_None_append:
  assumes "block_at d (l # ls) = None" "block_start d \<noteq> block_end d"
  shows "block_at d (l # ls @ block_start d # ys) = None"
proof (cases "list_all (plain d) ls")
  case True
  then have "dropWhile (plain d) (ls @ block_start d # ys) = block_start d # ys"
    by (simp add: dropWhile_append2 list_all_iff plain_def)
  then show ?thesis using assms(2) unfolding block_at_def by simp
next
  case False
  have a: "\<And>zs. dropWhile (plain d) (ls @ zs) = dropWhile (plain d) ls @ zs"
    using False by (auto simp: list_all_iff dropWhile_append1)
  have b: "\<And>zs. takeWhile (plain d) (ls @ zs) = takeWhile (plain d) ls"
    using False by (auto simp: list_all_iff takeWhile_append1)
  have ne: "dropWhile (plain d) ls \<noteq> []" using False by (simp add: list_all_iff dropWhile_eq_Nil_conv)
  obtain e r where er: "dropWhile (plain d) ls = e # r" using ne by (cases "dropWhile (plain d) ls") auto
  show ?thesis using assms(1) unfolding block_at_def
    by (simp add: a b er split: if_splits)
qed

lemma find_block_replaced:
  assumes "block_start d \<noteq> block_end d" "list_all (plain d) h"
  shows "find_block d f = Some (pre, body, post) \<Longrightarrow>
         find_block d (pre @ block_start d # h @ block_end d # post) = Some (pre, h, post)"
proof (induction f arbitrary: pre)
  case Nil
  then show ?case by simp
next
  case (Cons l ls)
  show ?case
  proof (cases "block_at d (l # ls)")
    case (Some bp)
    with Cons.prems have "pre = []" by (auto split: prod.splits)
    then show ?thesis using assms(2) by (simp add: block_at_managed del: find_block.simps(2)) (simp add: block_at_managed)
  next
    case None
    with Cons.prems obtain pre' where p: "pre = l # pre'" and f: "find_block d ls = Some (pre', body, post)"
      by (auto split: option.splits)
    from find_block_sound[OF f] have ls: "ls = pre' @ block_start d # body @ block_end d # post" .
    have "block_at d (l # pre' @ block_start d # h @ block_end d # post) = None"
      using None assms(1) block_at_None_ext ls by metis
    then show ?thesis using Cons.IH[OF f] p by simp
  qed
qed

lemma find_block_appended:
  assumes "block_start d \<noteq> block_end d" "list_all (plain d) h"
  shows "find_block d f = None \<Longrightarrow>
         find_block d (f @ block_start d # h @ [block_end d]) = Some (f, h, [])"
proof (induction f)
  case Nil
  then show ?case using assms(2) block_at_managed[of d h "[]"] by simp
next
  case (Cons l ls)
  then have n: "block_at d (l # ls) = None" and f: "find_block d ls = None"
    by (auto split: option.splits)
  have "block_at d (l # ls @ block_start d # h @ [block_end d]) = None"
    using n assms(1) by (rule block_at_None_append)
  then show ?case using Cons.IH[OF f] by simp
qed

lemma init_content_idem:
  assumes "well_delimited d p"
  shows "init_content d p (init_content d p f) = init_content d p f"
proof -
  from assms have ne: "block_start d \<noteq> block_end d" and pl: "list_all (plain d) (hook_code d p)"
    by (simp_all add: well_delimited_def)
  show ?thesis
  proof (cases "find_block d f")
    case None
    then have "find_block d (f @ managed_block d p) = Some (f, hook_code d p, [])"
      using find_block_appended[OF ne pl] by (simp add: managed_block_def)
    with None show ?thesis by (simp add: init_content_def)
  next
    case (Some t)
    then obtain pre body post where t: "find_block d f = Some (pre, body, post)" by (cases t) auto
    show ?thesis
    proof (cases "body = hook_code d p")
      case True
      with t show ?thesis by (simp add: init_content_def)
    next
      case False
      have "find_block d (pre @ managed_block d p @ post) = Some (pre, hook_code d p, post)"
        using find_block_replaced[OF ne pl t] by (simp add: managed_block_def)
      with t False show ?thesis by (simp add: init_content_def)
    qed
  qed
qed

lemma init_files_writable:
  "writable (snd (init_files d p paths fs)) = writable fs"
  by (induction paths arbitrary: fs) simp_all

lemma init_files_keeps:
  assumes "init_content d p c = c"
  shows "contents fs q = Some c \<Longrightarrow> contents (snd (init_files d p paths fs)) q = Some c"
proof (induction paths arbitrary: fs)
  case Nil
  then show ?case by simp
next
  case (Cons path paths)
  show ?case
  proof (cases "writable fs path")
    case False
    then show ?thesis using Cons.prems by simp
  next
    case True
    let ?fs1 = "fs\<lparr>contents := (contents fs)(path \<mapsto> init_content d p (read_lines fs path))\<rparr>"
    have "contents ?fs1 q = Some c"
      using Cons.prems assms by (auto simp: read_lines_def)
    then have "contents (snd (init_files d p paths ?fs1)) q = Some c" by (rule Cons.IH)
    then show ?thesis using True by simp
  qed
qed

lemma init_files_idem:
  assumes "well_delimited d p"
  shows "init_files d p paths (snd (init_files d p paths fs)) = init_files d p paths fs"
proof (induction paths arbitrary: fs)
  case Nil
  then show ?case by simp
next
  case (Cons path paths)
  show ?case
  proof (cases "writable fs path")
    case False
    then show ?thesis by simp
  next
    case True
    let ?c1 = "init_content d p (read_lines fs path)"
    let ?fs1 = "fs\<lparr>contents := (contents fs)(path \<mapsto> ?c1)\<rparr>"
    let ?R = "snd (init_files d p paths ?fs1)"
    have fp: "init_content d p ?c1 = ?c1" using assms by (rule init_content_idem)
    have first: "init_files d p (path # paths) fs = init_files d p paths ?fs1"
      using True by simp
    have w: "writable ?R path" using True by (simp add: init_files_writable)
    have "contents ?fs1 path = Some ?c1" by simp
    then have c: "contents ?R path = Some ?c1" by (rule init_files_keeps[OF fp])
    then have "(contents ?R)(path \<mapsto> init_content d p (read_lines ?R path)) = contents ?R"
      using fp by (simp add: read_lines_def map_upd_triv)
    then have same: "?R\<lparr>contents := (contents ?R)(path \<mapsto> init_content d p (read_lines ?R path))\<rparr> = ?R"
      by simp
    have "init_files d p (path # paths) ?R = init_files d p paths ?R"
      using w same by simp
    also have "\<dots> = init_files d p paths ?fs1" by (rule Cons.IH)
    finally show ?thesis using first by simp
  qed
qed

text \<open>
  Claim C9. For a dialect whose delimiters differ and whose hook code contains neither,
  a second \<open>init\<close> with the same dialect, prefix and home directory leaves every file as
  the first one left it, and reports what the first one reported. It holds for every
  content of the rc files, also one with stray delimiter lines.
\<close>

theorem init_idempotent:
  assumes "well_delimited d p"
  shows "init d p home (snd (init d p home fs)) = init d p home fs"
  unfolding init_def using assms by (rule init_files_idem)

theorem init_idempotent_witness:
  "well_delimited example_dialect ''/opt/env'' \<and>
   init example_dialect ''/opt/env'' ''/home/u''
     (snd (init example_dialect ''/opt/env'' ''/home/u'' example_files)) =
   init example_dialect ''/opt/env'' ''/home/u'' example_files"
proof -
  have w: "well_delimited example_dialect ''/opt/env''"
    by (simp add: well_delimited_def example_dialect_def plain_def)
  show ?thesis using w init_idempotent[OF w, of "''/home/u''" example_files] by simp
qed

end
